theory Spec2Isabelle
  imports Main
begin

section \<open>easy\_imap: a shallow embedding of connection.py\<close>

text \<open>
  The module wraps an IMAP session object (\<open>self.parent\<close>, an \<open>IMAP4_SSL\<close>) in three
  classes, \<open>Connection\<close>, \<open>MailBox\<close> and \<open>Message\<close>, and two helper functions,
  \<open>_parse_list_response\<close> and \<open>_ok\<close>. Python names that start with an underscore are
  written here with the prefix \<open>u_\<close>. Python strings are \<open>string\<close>; an exception is a
  value of the type \<open>error\<close>, returned on the left of a sum.
\<close>

subsection \<open>Exceptions\<close>

text \<open>
  \<open>BadReturnStatus\<close> and \<open>ReadOnlyException\<close> are the two exception classes the module
  declares; \<open>BadReturnStatus\<close> is raised with one argument, the message built by
  \<open>"status was {}".format(ok)\<close>. \<open>AttributeError\<close> is what Python raises for
  \<open>None.groups()\<close>, \<open>IndexError\<close> what it raises for \<open>xs[0]\<close> on an empty list.
\<close>

datatype error =
    BadReturnStatus string
  | ReadOnlyException
  | AttributeError
  | IndexError

subsection \<open>The pattern of a LIST response line\<close>

text \<open>
  \<^verbatim>\<open>_list_response_pattern = compile(r'\((?P<flags>.*?)\) "(?P<delimiter>.*)" (?P<name>.*)')\<close>

  The pattern is used through \<open>match\<close>, which anchors it at the start of the line only.
  A dot matches every character but the newline. The three functions below follow the
  backtracking search of the matcher, one per group, each together with the rest of the
  pattern behind its group: a greedy star first tries to take one more character and falls
  back to the rest of the pattern where it stands, a lazy star first tries the rest of the
  pattern where it stands and takes one more character when that fails.
\<close>

definition dquote :: char where
  "dquote = CHR 0x22"

definition newline :: char where
  "newline = CHR 0x0A"

text \<open>\<open>(?P<name>.*)\<close>, at the end of the pattern: the longest run without a newline.\<close>

definition match_name :: "string \<Rightarrow> string" where
  "match_name s = takeWhile (\<lambda>c. c \<noteq> newline) s"

text \<open>The literal \<open>" \<close> between the delimiter and the name, then the name.\<close>

definition match_after_delimiter :: "string \<Rightarrow> (string \<times> string) option" where
  "match_after_delimiter s =
     (if take 2 s = [dquote, CHR '' ''] then Some ([], match_name (drop 2 s)) else None)"

text \<open>\<open>(?P<delimiter>.*)\<close>, greedy, followed by \<open>" (?P<name>.*)\<close>.\<close>

fun match_delimiter :: "string \<Rightarrow> (string \<times> string) option" where
  "match_delimiter [] = match_after_delimiter []"
| "match_delimiter (c # cs) =
     (if c \<noteq> newline then
        (case match_delimiter cs of
           Some (d, n) \<Rightarrow> Some (c # d, n)
         | None \<Rightarrow> match_after_delimiter (c # cs))
      else match_after_delimiter (c # cs))"

text \<open>The literal \<open>) "\<close> between the flags and the delimiter, then the rest.\<close>

definition match_after_flags :: "string \<Rightarrow> (string \<times> string \<times> string) option" where
  "match_after_flags s =
     (if take 3 s = [CHR '')'', CHR '' '', dquote] then
        (case match_delimiter (drop 3 s) of
           Some (d, n) \<Rightarrow> Some ([], d, n)
         | None \<Rightarrow> None)
      else None)"

text \<open>\<open>(?P<flags>.*?)\<close>, lazy, followed by the rest of the pattern.\<close>

fun match_flags :: "string \<Rightarrow> (string \<times> string \<times> string) option" where
  "match_flags [] = match_after_flags []"
| "match_flags (c # cs) =
     (case match_after_flags (c # cs) of
        Some r \<Rightarrow> Some r
      | None \<Rightarrow>
          (if c \<noteq> newline then
             (case match_flags cs of
                Some (f, d, n) \<Rightarrow> Some (c # f, d, n)
              | None \<Rightarrow> None)
           else None))"

text \<open>\<open>_list_response_pattern.match(line)\<close>: \<open>None\<close>, or the three groups.\<close>

definition list_response_pattern_match :: "string \<Rightarrow> (string \<times> string \<times> string) option" where
  "list_response_pattern_match line =
     (case line of
        [] \<Rightarrow> None
      | c # rest \<Rightarrow> if c = CHR ''('' then match_flags rest else None)"

text \<open>\<open>s.strip('"')\<close>: every leading and every trailing double quote is removed.\<close>

definition strip_dquote :: "string \<Rightarrow> string" where
  "strip_dquote s =
     rev (dropWhile (\<lambda>c. c = dquote) (rev (dropWhile (\<lambda>c. c = dquote) s)))"

text \<open>
  \<^verbatim>\<open>
  def _parse_list_response(line):
      flags, delimiter, mailbox_name = _list_response_pattern.match(line).groups()
      mailbox_name = mailbox_name.strip('"')
      return flags, delimiter, mailbox_name
  \<close>
  When the pattern does not match, \<open>match\<close> returns \<open>None\<close> and the call of \<open>groups\<close> on
  it raises \<open>AttributeError\<close>.
\<close>

definition u_parse_list_response :: "string \<Rightarrow> error + (string \<times> string \<times> string)" where
  "u_parse_list_response line =
     (case list_response_pattern_match line of
        None \<Rightarrow> Inl AttributeError
      | Some (flags, delimiter, mailbox_name) \<Rightarrow>
          Inr (flags, delimiter, strip_dquote mailbox_name))"

subsection \<open>The status check\<close>

text \<open>
  \<^verbatim>\<open>
  def _ok(ok):
      if ok != "OK":
          raise BadReturnStatus("status was {}".format(ok))
  \<close>
\<close>

definition u_ok :: "string \<Rightarrow> error + unit" where
  "u_ok ok = (if ok \<noteq> ''OK'' then Inl (BadReturnStatus (''status was '' @ ok)) else Inr ())"

subsection \<open>The transport\<close>

text \<open>
  \<open>self.parent\<close> is the \<open>IMAP4_SSL\<close> session. \<open>Connection.__getattr__\<close> forwards a name
  with a leading underscore to it, so \<open>self._select(...)\<close> inside \<open>Connection\<close> is
  \<open>self.parent.select(...)\<close>, and so on. Each of its methods returns a pair of a status
  and a payload. The session is outside the module: it is a parameter here, a function
  from the calls it has received so far and the present call to its answer. The
  connection state holds the list of the calls made, oldest first.
\<close>

type_synonym payload = "string list"

datatype call =
    IMAP_login string string
  | IMAP_list "string list"
  | IMAP_select string bool
  | IMAP_search "string option" "string list"
  | IMAP_fetch string string
  | IMAP_store string string string

type_synonym transport = "call list \<Rightarrow> call \<Rightarrow> string \<times> payload"

subsection \<open>Connection\<close>

text \<open>
  \<open>__init__\<close> sets \<open>self.mailbox = 'INBOX'\<close> and \<open>self.readonly = False\<close> and creates
  the session.
\<close>

record Connection =
  mailbox :: string
  readonly :: bool
  parent_log :: "call list"

definition Connection_init :: Connection where
  "Connection_init = \<lparr>mailbox = ''INBOX'', readonly = False, parent_log = []\<rparr>"

text \<open>One call of a method of \<open>self.parent\<close>: its answer, and the call recorded.\<close>

definition parent_call :: "transport \<Rightarrow> call \<Rightarrow> Connection \<Rightarrow> (string \<times> payload) \<times> Connection" where
  "parent_call T x c = (T (parent_log c) x, c\<lparr>parent_log := parent_log c @ [x]\<rparr>)"

text \<open>
  \<^verbatim>\<open>
  def login(self, user, password):
      ok, value = self._login(user, password)
      _ok(ok)
      return value[0]
  \<close>
\<close>

definition Connection_login ::
  "transport \<Rightarrow> string \<Rightarrow> string \<Rightarrow> Connection \<Rightarrow> (error + string) \<times> Connection" where
  "Connection_login T user password c =
     (case parent_call T (IMAP_login user password) c of
        ((ok, val), c1) \<Rightarrow>
          (case u_ok ok of
             Inl e \<Rightarrow> (Inl e, c1)
           | Inr _ \<Rightarrow>
               (case val of
                  [] \<Rightarrow> (Inl IndexError, c1)
                | v # _ \<Rightarrow> (Inr v, c1))))"

text \<open>
  \<^verbatim>\<open>
  def list(self, *args, **kwargs):
      boxes = {}
      ok, boxlist = self._list(*args, **kwargs)
      _ok(ok)
      for box_line in boxlist:
          flags, delimiter, name = _parse_list_response(box_line)
          this_box = {'flags': flags, 'delimiter': delimiter}
          boxes[name] = this_box
      return boxes
  \<close>
\<close>

record box =
  flags :: string
  delimiter :: string

fun list_loop :: "string list \<Rightarrow> (string \<rightharpoonup> box) \<Rightarrow> error + (string \<rightharpoonup> box)" where
  "list_loop [] boxes = Inr boxes"
| "list_loop (box_line # boxlist) boxes =
     (case u_parse_list_response box_line of
        Inl e \<Rightarrow> Inl e
      | Inr (fl, dl, name) \<Rightarrow>
          list_loop boxlist (boxes(name \<mapsto> \<lparr>flags = fl, delimiter = dl\<rparr>)))"

definition Connection_list ::
  "transport \<Rightarrow> string list \<Rightarrow> Connection \<Rightarrow> (error + (string \<rightharpoonup> box)) \<times> Connection" where
  "Connection_list T args c =
     (case parent_call T (IMAP_list args) c of
        ((ok, boxlist), c1) \<Rightarrow>
          (case u_ok ok of
             Inl e \<Rightarrow> (Inl e, c1)
           | Inr _ \<Rightarrow> (list_loop boxlist Map.empty, c1)))"

text \<open>
  \<^verbatim>\<open>
  def switch(self, mailbox="INBOX", readonly=False):
      ok, messages = self._select(mailbox, readonly)
      _ok(ok)
      self.mailbox = mailbox
      self.readonly = self.readonly
  \<close>
  The last line assigns the attribute to itself: the argument \<open>readonly\<close> is passed to
  the session and not stored.
\<close>

definition Connection_switch ::
  "transport \<Rightarrow> string \<Rightarrow> bool \<Rightarrow> Connection \<Rightarrow> (error + unit) \<times> Connection" where
  "Connection_switch T mbox ro c =
     (case parent_call T (IMAP_select mbox ro) c of
        ((ok, messages), c1) \<Rightarrow>
          (case u_ok ok of
             Inl e \<Rightarrow> (Inl e, c1)
           | Inr _ \<Rightarrow> (Inr (), c1\<lparr>mailbox := mbox, readonly := readonly c1\<rparr>)))"

text \<open>
  \<open>s.split(' ')\<close>: the pieces of \<open>s\<close> between the occurrences of one space, empty pieces
  included.
\<close>

fun split_space :: "string \<Rightarrow> string list" where
  "split_space [] = [[]]"
| "split_space (c # cs) =
     (if c = CHR '' '' then [] # split_space cs
      else (case split_space cs of
              [] \<Rightarrow> [[c]]
            | t # ts \<Rightarrow> (c # t) # ts))"

text \<open>
  \<^verbatim>\<open>
  def search(self, *args, **kwargs):
      charset = kwargs.pop("charset", None)
      ok, results = self._search(charset, *args, **kwargs)
      _ok(ok)
      if results[0] == '':
          return []
      else:
          ids = results[0].split(' ')
          return ids
  \<close>
\<close>

definition Connection_search ::
  "transport \<Rightarrow> string list \<Rightarrow> string option \<Rightarrow> Connection \<Rightarrow> (error + string list) \<times> Connection" where
  "Connection_search T args charset c =
     (case parent_call T (IMAP_search charset args) c of
        ((ok, results), c1) \<Rightarrow>
          (case u_ok ok of
             Inl e \<Rightarrow> (Inl e, c1)
           | Inr _ \<Rightarrow>
               (case results of
                  [] \<Rightarrow> (Inl IndexError, c1)
                | r # _ \<Rightarrow> if r = [] then (Inr [], c1) else (Inr (split_space r), c1))))"

text \<open>\<open>' '.join(xs)\<close>\<close>

fun join_space :: "string list \<Rightarrow> string" where
  "join_space [] = []"
| "join_space [x] = x"
| "join_space (x # y # ys) = x @ CHR '' '' # join_space (y # ys)"

text \<open>
  \<^verbatim>\<open>
  def fetch(self, nums, *args, **kwargs):
      num_string = ' '.join(str(n) for n in nums)
      command = "(" + " ".join(args) + ")"
      ok, result = self._fetch(num_string, command, **kwargs)
      _ok(ok)
      return result
  \<close>
  \<open>nums\<close> is given here as the list of the \<open>str(n)\<close>.
\<close>

definition Connection_fetch ::
  "transport \<Rightarrow> string list \<Rightarrow> string list \<Rightarrow> Connection \<Rightarrow> (error + payload) \<times> Connection" where
  "Connection_fetch T nums args c =
     (let num_string = join_space nums;
          command = ''('' @ join_space args @ '')''
      in case parent_call T (IMAP_fetch num_string command) c of
           ((ok, result), c1) \<Rightarrow>
             (case u_ok ok of
                Inl e \<Rightarrow> (Inl e, c1)
              | Inr _ \<Rightarrow> (Inr result, c1)))"

text \<open>
  \<^verbatim>\<open>
  def store(self, messages, flags, command="+", silent=False):
      command += "FLAGS"
      if silent:
          command += ".SILENT"
      new_flag_list = []
      for message in messages:
          ok, new_flags = self._store(message, command, flags)
          _ok(ok)
          new_flag_list.append(new_flags)
      return new_flag_list
  \<close>
\<close>

fun store_loop ::
  "transport \<Rightarrow> string list \<Rightarrow> string \<Rightarrow> string \<Rightarrow> payload list \<Rightarrow> Connection
     \<Rightarrow> (error + payload list) \<times> Connection" where
  "store_loop T [] command fl new_flag_list c = (Inr new_flag_list, c)"
| "store_loop T (message # messages) command fl new_flag_list c =
     (case parent_call T (IMAP_store message command fl) c of
        ((ok, new_flags), c1) \<Rightarrow>
          (case u_ok ok of
             Inl e \<Rightarrow> (Inl e, c1)
           | Inr _ \<Rightarrow> store_loop T messages command fl (new_flag_list @ [new_flags]) c1))"

definition Connection_store ::
  "transport \<Rightarrow> string list \<Rightarrow> string \<Rightarrow> string \<Rightarrow> bool \<Rightarrow> Connection
     \<Rightarrow> (error + payload list) \<times> Connection" where
  "Connection_store T messages fl command silent c =
     (let command1 = command @ ''FLAGS'';
          command2 = (if silent then command1 @ ''.SILENT'' else command1)
      in store_loop T messages command2 fl [] c)"

subsection \<open>MailBox and Message\<close>

text \<open>
  \<^verbatim>\<open>
  class MailBox(object):
      def __init__(self, connection, mailbox, readonly):
          self.connection = connection
          self._mailbox, self._readonly = mailbox, readonly

  class Message(MailBox):
      def __init__(self, inherit, num):
          super(Message, self).__init__(inherit.connection, inherit._mailbox, inherit._readonly)
          self.num = num
  \<close>
  \<open>self.connection\<close> is a reference to the one shared \<open>Connection\<close>: its state is passed
  to every method and returned by it. A \<open>Message\<close> is a \<open>MailBox\<close> with one more field, so
  the methods of \<open>MailBox\<close> take either.
\<close>

record MailBox =
  u_mailbox :: string
  u_readonly :: bool

record Message = MailBox +
  num :: string

definition Message_init :: "'a MailBox_scheme \<Rightarrow> string \<Rightarrow> Message" where
  "Message_init inherit n =
     \<lparr>u_mailbox = u_mailbox inherit, u_readonly = u_readonly inherit, num = n\<rparr>"

text \<open>
  \<^verbatim>\<open>
  def select(self, mailbox="INBOX", readonly=False):
      self.switch(mailbox, readonly)
      return MailBox(self, mailbox, readonly)
  \<close>
\<close>

definition Connection_select ::
  "transport \<Rightarrow> string \<Rightarrow> bool \<Rightarrow> Connection \<Rightarrow> (error + MailBox) \<times> Connection" where
  "Connection_select T mbox ro c =
     (case Connection_switch T mbox ro c of
        (Inl e, c1) \<Rightarrow> (Inl e, c1)
      | (Inr _, c1) \<Rightarrow> (Inr \<lparr>u_mailbox = mbox, u_readonly = ro\<rparr>, c1))"

text \<open>
  \<^verbatim>\<open>
  def _select(self):
      if self.connection.mailbox != self._mailbox:
          self.connection.switch(self._mailbox, self._readonly)
  \<close>
\<close>

definition MailBox_u_select ::
  "transport \<Rightarrow> 'a MailBox_scheme \<Rightarrow> Connection \<Rightarrow> (error + unit) \<times> Connection" where
  "MailBox_u_select T self c =
     (if mailbox c \<noteq> u_mailbox self
      then Connection_switch T (u_mailbox self) (u_readonly self) c
      else (Inr (), c))"

text \<open>
  \<^verbatim>\<open>
  def search(self, *args, **kwargs):
      self._select()
      messages = []
      for message in self.connection.search(*args, **kwargs):
          messages.append(Message(self, message))
      return messages
  \<close>
\<close>

definition MailBox_search ::
  "transport \<Rightarrow> 'a MailBox_scheme \<Rightarrow> string list \<Rightarrow> string option \<Rightarrow> Connection
     \<Rightarrow> (error + Message list) \<times> Connection" where
  "MailBox_search T self args charset c =
     (case MailBox_u_select T self c of
        (Inl e, c1) \<Rightarrow> (Inl e, c1)
      | (Inr _, c1) \<Rightarrow>
          (case Connection_search T args charset c1 of
             (Inl e, c2) \<Rightarrow> (Inl e, c2)
           | (Inr ids, c2) \<Rightarrow> (Inr (map (Message_init self) ids), c2)))"

text \<open>
  \<^verbatim>\<open>
  def fetch(self, nums, *args):
      self._select()
      return self.connection.fetch(nums, *args)
  \<close>
\<close>

definition MailBox_fetch ::
  "transport \<Rightarrow> 'a MailBox_scheme \<Rightarrow> string list \<Rightarrow> string list \<Rightarrow> Connection
     \<Rightarrow> (error + payload) \<times> Connection" where
  "MailBox_fetch T self nums args c =
     (case MailBox_u_select T self c of
        (Inl e, c1) \<Rightarrow> (Inl e, c1)
      | (Inr _, c1) \<Rightarrow> Connection_fetch T nums args c1)"

text \<open>
  \<^verbatim>\<open>
  def store(self, *args, **kwargs):
      if self._readonly:
          raise ReadOnlyException
      self._select()
      return self.connection.store(*args, **kwargs)
  \<close>
\<close>

definition MailBox_store ::
  "transport \<Rightarrow> 'a MailBox_scheme \<Rightarrow> string list \<Rightarrow> string \<Rightarrow> string \<Rightarrow> bool \<Rightarrow> Connection
     \<Rightarrow> (error + payload list) \<times> Connection" where
  "MailBox_store T self messages fl command silent c =
     (if u_readonly self then (Inl ReadOnlyException, c)
      else (case MailBox_u_select T self c of
              (Inl e, c1) \<Rightarrow> (Inl e, c1)
            | (Inr _, c1) \<Rightarrow> Connection_store T messages fl command silent c1))"

text \<open>
  \<^verbatim>\<open>
  def store(self, flags, command="+", silent=False):
      new_flags = super(Message, self).store([self.num], flags, command=command, silent=silent)
      return new_flags[0]
  \<close>
\<close>

definition Message_store ::
  "transport \<Rightarrow> Message \<Rightarrow> string \<Rightarrow> string \<Rightarrow> bool \<Rightarrow> Connection
     \<Rightarrow> (error + payload) \<times> Connection" where
  "Message_store T self fl command silent c =
     (case MailBox_store T self [num self] fl command silent c of
        (Inl e, c1) \<Rightarrow> (Inl e, c1)
      | (Inr new_flags, c1) \<Rightarrow>
          (case new_flags of
             [] \<Rightarrow> (Inl IndexError, c1)
           | x # _ \<Rightarrow> (Inr x, c1)))"

text \<open>The number of \<open>select\<close> calls the session has received.\<close>

definition select_count :: "call list \<Rightarrow> nat" where
  "select_count cs = length (filter (\<lambda>x. case x of IMAP_select _ _ \<Rightarrow> True | _ \<Rightarrow> False) cs)"

subsection \<open>Reference notions\<close>

text \<open>
  The lines the pattern matches, stated without the search: an opening parenthesis, a
  run \<open>f\<close> without a newline, the three characters \<open>) "\<close>, a run \<open>d\<close> without a newline,
  the two characters \<open>" \<close>, and anything behind them.
\<close>

definition list_line_shape :: "string \<Rightarrow> bool" where
  "list_line_shape line =
     (\<exists>f d r. newline \<notin> set f \<and> newline \<notin> set d \<and>
        line = ''('' @ f @ [CHR '')'', CHR '' '', dquote] @ d @ [dquote, CHR '' ''] @ r)"

text \<open>
  The specification's words for the name: "strip one pair of leading/trailing
  double-quote characters from the name if present".
\<close>

definition spec_strip_one_pair :: "string \<Rightarrow> string" where
  "spec_strip_one_pair s =
     (if 2 \<le> length s \<and> hd s = dquote \<and> last s = dquote then butlast (tl s) else s)"

text \<open>
  The specification's words for the search result: "split the whitespace-separated token
  list into individual item-number strings". The tokens of a string are its maximal runs
  of characters that are not whitespace; \<open>cur\<close> is the token being read.
\<close>

definition is_whitespace :: "char \<Rightarrow> bool" where
  "is_whitespace c = (c \<in> set [CHR '' '', CHR 0x09, CHR 0x0A, CHR 0x0B, CHR 0x0C, CHR 0x0D])"

fun whitespace_tokens_from :: "string \<Rightarrow> string \<Rightarrow> string list" where
  "whitespace_tokens_from cur [] = (if cur = [] then [] else [cur])"
| "whitespace_tokens_from cur (c # cs) =
     (if is_whitespace c
      then (if cur = [] then whitespace_tokens_from [] cs else cur # whitespace_tokens_from [] cs)
      else whitespace_tokens_from (cur @ [c]) cs)"

definition spec_whitespace_tokens :: "string \<Rightarrow> string list" where
  "spec_whitespace_tokens s = whitespace_tokens_from [] s"

section \<open>Properties\<close>

subsection \<open>The pattern: what a match says about the line\<close>

lemma match_after_delimiter_Some:
  "match_after_delimiter s = Some (d, n) \<Longrightarrow> d = [] \<and> (\<exists>r. s = dquote # CHR '' '' # n @ r) \<and> newline \<notin> set n"
  unfolding match_after_delimiter_def match_name_def
  apply (cases s; simp)
  subgoal for a s'
    apply (cases s'; simp split: if_splits)
    apply (auto dest: set_takeWhileD)
    by (metis takeWhile_dropWhile_id)
  done

lemma match_delimiter_Some:
  "match_delimiter s = Some (d, n) \<Longrightarrow>
     (\<exists>r. s = d @ dquote # CHR '' '' # n @ r) \<and> newline \<notin> set d \<and> newline \<notin> set n"
proof (induction s arbitrary: d n)
  case Nil
  then show ?case by (auto dest: match_after_delimiter_Some)
next
  case (Cons c cs)
  show ?case
  proof (cases "c \<noteq> newline \<and> match_delimiter cs \<noteq> None")
    case True
    then obtain d' n' where m: "match_delimiter cs = Some (d', n')" by auto
    with True Cons.prems have "d = c # d'" "n = n'" by auto
    with Cons.IH[OF m] True show ?thesis by auto
  next
    case False
    with Cons.prems have "match_after_delimiter (c # cs) = Some (d, n)"
      by (auto split: if_splits option.splits)
    from match_after_delimiter_Some[OF this] show ?thesis by auto
  qed
qed

lemma match_after_flags_Some:
  "match_after_flags s = Some (f, d, n) \<Longrightarrow>
     f = [] \<and> (\<exists>r. s = [CHR '')'', CHR '' '', dquote] @ d @ dquote # CHR '' '' # n @ r)
       \<and> newline \<notin> set d \<and> newline \<notin> set n"
proof -
  assume a: "match_after_flags s = Some (f, d, n)"
  then have t: "take 3 s = [CHR '')'', CHR '' '', dquote]"
    by (auto simp: match_after_flags_def split: if_splits)
  with a have m: "match_delimiter (drop 3 s) = Some (d, n)" and f: "f = []"
    by (auto simp: match_after_flags_def split: if_splits option.splits)
  from match_delimiter_Some[OF m] obtain r where
    r: "drop 3 s = d @ dquote # CHR '' '' # n @ r" and nl: "newline \<notin> set d" "newline \<notin> set n"
    by auto
  have "s = take 3 s @ drop 3 s" by simp
  with t r have "s = [CHR '')'', CHR '' '', dquote] @ d @ dquote # CHR '' '' # n @ r" by metis
  with f nl show ?thesis by blast
qed

lemma match_flags_Some:
  "match_flags s = Some (f, d, n) \<Longrightarrow>
     (\<exists>r. s = f @ [CHR '')'', CHR '' '', dquote] @ d @ dquote # CHR '' '' # n @ r)
       \<and> newline \<notin> set f \<and> newline \<notin> set d \<and> newline \<notin> set n"
proof (induction s arbitrary: f d n)
  case Nil
  then show ?case by (auto dest: match_after_flags_Some)
next
  case (Cons c cs)
  show ?case
  proof (cases "match_after_flags (c # cs)")
    case (Some r)
    with Cons.prems have "match_after_flags (c # cs) = Some (f, d, n)" by simp
    from match_after_flags_Some[OF this] show ?thesis by auto
  next
    case None
    with Cons.prems obtain f' where nl: "c \<noteq> newline" and m: "match_flags cs = Some (f', d, n)"
      and f: "f = c # f'"
      by (auto split: if_splits option.splits)
    from Cons.IH[OF m] nl f show ?thesis by auto
  qed
qed

lemma list_response_pattern_match_Some:
  "list_response_pattern_match line = Some (f, d, n) \<Longrightarrow>
     (\<exists>r. line = ''('' @ f @ [CHR '')'', CHR '' '', dquote] @ d @ [dquote, CHR '' ''] @ n @ r)
       \<and> newline \<notin> set f \<and> newline \<notin> set d \<and> newline \<notin> set n"
  unfolding list_response_pattern_match_def
  by (cases line) (auto split: if_splits dest: match_flags_Some)

lemma match_delimiter_complete:
  "newline \<notin> set d \<Longrightarrow> match_delimiter (d @ dquote # CHR '' '' # r) \<noteq> None"
proof (induction d)
  case Nil
  then show ?case
    by (auto simp: match_after_delimiter_def dquote_def newline_def split: option.splits)
next
  case (Cons c d)
  then show ?case by (auto split: option.splits)
qed

lemma match_flags_complete:
  "newline \<notin> set f \<Longrightarrow> match_delimiter s \<noteq> None \<Longrightarrow>
     match_flags (f @ CHR '')'' # CHR '' '' # dquote # s) \<noteq> None"
proof (induction f)
  case Nil
  then show ?case
    by (auto simp: match_after_flags_def split: option.splits)
next
  case (Cons c f)
  then show ?case by (auto split: option.splits)
qed

lemma list_response_pattern_match_None_iff:
  "list_response_pattern_match line = None \<longleftrightarrow> \<not> list_line_shape line"
proof
  assume n: "list_response_pattern_match line = None"
  show "\<not> list_line_shape line"
  proof
    assume "list_line_shape line"
    then obtain f d r where nl: "newline \<notin> set f" "newline \<notin> set d"
      and l: "line = ''('' @ f @ [CHR '')'', CHR '' '', dquote] @ d @ [dquote, CHR '' ''] @ r"
      unfolding list_line_shape_def by blast
    from match_flags_complete[OF nl(1) match_delimiter_complete[OF nl(2)], of r] l
    have "list_response_pattern_match line \<noteq> None"
      by (simp add: list_response_pattern_match_def)
    with n show False by simp
  qed
next
  assume s: "\<not> list_line_shape line"
  show "list_response_pattern_match line = None"
  proof (rule ccontr)
    assume "list_response_pattern_match line \<noteq> None"
    then obtain f d n where "list_response_pattern_match line = Some (f, d, n)" by auto
    from list_response_pattern_match_Some[OF this] have "list_line_shape line"
      unfolding list_line_shape_def by blast
    with s show False by simp
  qed
qed

subsection \<open>The pattern: lines whose groups are determined\<close>

lemma match_delimiter_None:
  "\<forall>u v. s \<noteq> u @ [dquote, CHR '' ''] @ v \<Longrightarrow> match_delimiter s = None"
proof (rule ccontr)
  assume a: "\<forall>u v. s \<noteq> u @ [dquote, CHR '' ''] @ v" and "match_delimiter s \<noteq> None"
  then obtain d n where "match_delimiter s = Some (d, n)" by auto
  from match_delimiter_Some[OF this] obtain r where "s = d @ [dquote, CHR '' ''] @ (n @ r)"
    by auto
  with a show False by blast
qed

lemma match_name_id: "newline \<notin> set n \<Longrightarrow> match_name n = n"
  by (auto simp: match_name_def)

lemma match_delimiter_exact:
  assumes "newline \<notin> set d" and "\<forall>u v. n \<noteq> u @ [dquote, CHR '' ''] @ v"
  shows "match_delimiter (d @ [dquote, CHR '' ''] @ n) = Some (d, match_name n)"
  using assms(1)
proof (induction d)
  case Nil
  have "\<forall>u v. CHR '' '' # n \<noteq> u @ [dquote, CHR '' ''] @ v"
  proof (intro allI notI)
    fix u v assume e: "CHR '' '' # n = u @ [dquote, CHR '' ''] @ v"
    show False
    proof (cases u)
      case Nil
      with e show False by (simp add: dquote_def)
    next
      case (Cons a u')
      with e have "n = u' @ [dquote, CHR '' ''] @ v" by simp
      with assms(2) show False by blast
    qed
  qed
  then have "match_delimiter (CHR '' '' # n) = None" by (rule match_delimiter_None)
  then show ?case
    by (simp add: match_after_delimiter_def dquote_def newline_def)
next
  case (Cons c d)
  then show ?case by auto
qed

lemma match_flags_exact:
  assumes "CHR '')'' \<notin> set f" and "newline \<notin> set f" and "match_delimiter s = Some (d, n)"
  shows "match_flags (f @ [CHR '')'', CHR '' '', dquote] @ s) = Some (f, d, n)"
  using assms(1,2)
proof (induction f)
  case Nil
  with assms(3) show ?case by (simp add: match_after_flags_def)
next
  case (Cons c f)
  then have "match_after_flags ((c # f) @ [CHR '')'', CHR '' '', dquote] @ s) = None"
    by (auto simp: match_after_flags_def)
  with Cons show ?case by auto
qed

lemma parse_shape:
  assumes "CHR '')'' \<notin> set f" and "newline \<notin> set f" and "newline \<notin> set d"
    and "newline \<notin> set n" and "\<forall>u v. n \<noteq> u @ [dquote, CHR '' ''] @ v"
  shows "u_parse_list_response
           (''('' @ f @ [CHR '')'', CHR '' '', dquote] @ d @ [dquote, CHR '' ''] @ n)
         = Inr (f, d, strip_dquote n)"
proof -
  have "match_delimiter (d @ [dquote, CHR '' ''] @ n) = Some (d, n)"
    using match_delimiter_exact[OF assms(3,5)] match_name_id[OF assms(4)] by simp
  from match_flags_exact[OF assms(1,2) this]
  show ?thesis
    by (simp add: u_parse_list_response_def list_response_pattern_match_def)
qed

lemma no_dquote_no_split:
  "dquote \<notin> set n \<Longrightarrow> \<forall>u v. n \<noteq> u @ [dquote, CHR '' ''] @ v"
  by auto

lemma strip_dquote_mid:
  "\<exists>j. dropWhile (\<lambda>c. c = dquote) n = strip_dquote n @ replicate j dquote"
proof -
  let ?P = "\<lambda>c. c = dquote"
  let ?m = "dropWhile ?P n"
  have b: "rev ?m = takeWhile ?P (rev ?m) @ dropWhile ?P (rev ?m)" by simp
  have "?m = rev (rev ?m)" by simp
  also have "\<dots> = rev (dropWhile ?P (rev ?m)) @ rev (takeWhile ?P (rev ?m))"
    by (subst b) (simp only: rev_append)
  finally have c: "?m = strip_dquote n @ rev (takeWhile ?P (rev ?m))"
    by (simp add: strip_dquote_def)
  have "rev (takeWhile ?P (rev ?m)) = replicate (length (rev (takeWhile ?P (rev ?m)))) dquote"
    by (rule replicate_length_same[symmetric]) (auto dest: set_takeWhileD)
  with c show ?thesis by metis
qed

lemma strip_dquote_decomp:
  "\<exists>i j. n = replicate i dquote @ strip_dquote n @ replicate j dquote"
proof -
  let ?P = "\<lambda>c. c = dquote"
  have a: "n = takeWhile ?P n @ dropWhile ?P n" by simp
  have t: "takeWhile ?P n = replicate (length (takeWhile ?P n)) dquote"
    by (rule replicate_length_same[symmetric]) (auto dest: set_takeWhileD)
  from strip_dquote_mid[of n] a t show ?thesis by metis
qed

lemma strip_dquote_ends:
  assumes "strip_dquote n \<noteq> []"
  shows "hd (strip_dquote n) \<noteq> dquote \<and> last (strip_dquote n) \<noteq> dquote"
proof -
  let ?P = "\<lambda>c. c = dquote"
  let ?m = "dropWhile ?P n"
  from assms have r: "dropWhile ?P (rev ?m) \<noteq> []" by (simp add: strip_dquote_def)
  then have "hd (dropWhile ?P (rev ?m)) \<noteq> dquote" using hd_dropWhile by blast
  then have l: "last (strip_dquote n) \<noteq> dquote"
    using r by (simp add: strip_dquote_def last_rev)
  obtain j where j: "?m = strip_dquote n @ replicate j dquote"
    using strip_dquote_mid[of n] by blast
  with assms have m: "?m \<noteq> []" by simp
  then have h: "hd ?m \<noteq> dquote" using hd_dropWhile by blast
  from j assms have "hd ?m = hd (strip_dquote n)" by (metis hd_append2)
  with h l show ?thesis by simp
qed


subsection \<open>What the operations leave unchanged\<close>

lemma select_count_snoc:
  "select_count (cs @ [x]) =
     select_count cs + (case x of IMAP_select _ _ \<Rightarrow> 1 | _ \<Rightarrow> 0)"
  by (cases x) (simp_all add: select_count_def)

lemma u_ok_cases: "u_ok s = (if s = ''OK'' then Inr () else Inl (BadReturnStatus (''status was '' @ s)))"
  by (simp add: u_ok_def)

lemma Connection_switch_frame:
  "select_count (parent_log (snd (Connection_switch T m r c))) = select_count (parent_log c) + 1
   \<and> readonly (snd (Connection_switch T m r c)) = readonly c"
  by (simp add: Connection_switch_def parent_call_def select_count_snoc
      split: prod.splits sum.splits)

lemma Connection_switch_ok:
  "Connection_switch T m r c = (Inr u, c') \<Longrightarrow> mailbox c' = m \<and> readonly c' = readonly c"
  by (auto simp: Connection_switch_def parent_call_def split: prod.splits sum.splits)

lemma Connection_search_frame:
  "select_count (parent_log (snd (Connection_search T args cs c))) = select_count (parent_log c)
   \<and> mailbox (snd (Connection_search T args cs c)) = mailbox c
   \<and> readonly (snd (Connection_search T args cs c)) = readonly c"
  by (simp add: Connection_search_def parent_call_def select_count_snoc
      split: prod.splits sum.splits list.splits)

lemma Connection_fetch_frame:
  "select_count (parent_log (snd (Connection_fetch T nums args c))) = select_count (parent_log c)
   \<and> mailbox (snd (Connection_fetch T nums args c)) = mailbox c
   \<and> readonly (snd (Connection_fetch T nums args c)) = readonly c"
  by (simp add: Connection_fetch_def parent_call_def select_count_snoc Let_def
      split: prod.splits sum.splits)

lemma store_loop_frame:
  "select_count (parent_log (snd (store_loop T ms cmd fl acc c))) = select_count (parent_log c)
   \<and> mailbox (snd (store_loop T ms cmd fl acc c)) = mailbox c
   \<and> readonly (snd (store_loop T ms cmd fl acc c)) = readonly c"
proof (induction ms arbitrary: acc c)
  case Nil
  show ?case by simp
next
  case (Cons m ms)
  obtain ok v where t: "T (parent_log c) (IMAP_store m cmd fl) = (ok, v)"
    by (cases "T (parent_log c) (IMAP_store m cmd fl)")
  show ?case
  proof (cases "ok = ''OK''")
    case True
    with t show ?thesis
      using Cons.IH[of "acc @ [v]" "c\<lparr>parent_log := parent_log c @ [IMAP_store m cmd fl]\<rparr>"]
      by (simp add: parent_call_def u_ok_def select_count_snoc)
  next
    case False
    with t show ?thesis
      by (simp add: parent_call_def u_ok_def select_count_snoc)
  qed
qed

lemma Connection_store_frame:
  "select_count (parent_log (snd (Connection_store T ms fl cmd silent c))) = select_count (parent_log c)
   \<and> mailbox (snd (Connection_store T ms fl cmd silent c)) = mailbox c
   \<and> readonly (snd (Connection_store T ms fl cmd silent c)) = readonly c"
  by (simp add: Connection_store_def Let_def store_loop_frame)

lemma MailBox_u_select_same:
  "mailbox c = u_mailbox self \<Longrightarrow> MailBox_u_select T self c = (Inr (), c)"
  by (simp add: MailBox_u_select_def)

lemma MailBox_u_select_ok:
  "MailBox_u_select T self c = (Inr u, c') \<Longrightarrow> mailbox c' = u_mailbox self"
  by (auto simp: MailBox_u_select_def dest: Connection_switch_ok split: if_splits)

lemma store_loop_single:
  "store_loop T [m] cmd fl [] c = (Inr l, c') \<Longrightarrow>
     l = [snd (T (parent_log c) (IMAP_store m cmd fl))]"
  by (auto simp: parent_call_def split: prod.splits sum.splits)

subsection \<open>Splitting at spaces\<close>

lemma split_space_not_Nil: "split_space s \<noteq> []"
  by (induction s) (auto split: list.splits)

lemma split_space_token:
  "CHR '' '' \<notin> set t \<Longrightarrow> split_space (t @ CHR '' '' # s) = t # split_space s"
  by (induction t) auto

lemma split_space_last: "CHR '' '' \<notin> set t \<Longrightarrow> split_space t = [t]"
  by (induction t) auto

lemma split_space_join_space:
  "ts \<noteq> [] \<Longrightarrow> \<forall>t\<in>set ts. CHR '' '' \<notin> set t \<Longrightarrow> split_space (join_space ts) = ts"
  by (induction ts rule: join_space.induct) (simp_all add: split_space_token split_space_last)

lemma join_space_not_Nil: "ts \<noteq> [] \<Longrightarrow> \<forall>t\<in>set ts. t \<noteq> [] \<Longrightarrow> join_space ts \<noteq> []"
  by (induction ts rule: join_space.induct) simp_all

lemma whitespace_tokens_from_run:
  "\<forall>ch\<in>set t. \<not> is_whitespace ch \<Longrightarrow>
     whitespace_tokens_from cur (t @ s) = whitespace_tokens_from (cur @ t) s"
  by (induction t arbitrary: cur) auto

lemma whitespace_tokens_join_space:
  "\<forall>t\<in>set ts. t \<noteq> [] \<and> (\<forall>ch\<in>set t. \<not> is_whitespace ch) \<Longrightarrow>
     whitespace_tokens_from [] (join_space ts) = ts"
proof (induction ts rule: join_space.induct)
  case 1
  show ?case by simp
next
  case (2 x)
  then have "whitespace_tokens_from [] (x @ []) = whitespace_tokens_from ([] @ x) []"
    by (intro whitespace_tokens_from_run) simp
  with 2 show ?case by simp
next
  case (3 x y ys)
  then have "whitespace_tokens_from [] (x @ CHR '' '' # join_space (y # ys))
      = whitespace_tokens_from ([] @ x) (CHR '' '' # join_space (y # ys))"
    by (intro whitespace_tokens_from_run) simp
  with 3 show ?case by (simp add: is_whitespace_def)
qed

lemma not_whitespace_not_space: "\<not> is_whitespace ch \<Longrightarrow> ch \<noteq> CHR '' ''"
  by (auto simp: is_whitespace_def)

subsection \<open>Select calls made through a MailBox\<close>

lemma MailBox_u_select_count:
  "select_count (parent_log (snd (MailBox_u_select T self c)))
     = select_count (parent_log c) + (if mailbox c \<noteq> u_mailbox self then 1 else 0)"
  by (simp add: MailBox_u_select_def Connection_switch_frame)

lemma MailBox_search_count:
  "select_count (parent_log (snd (MailBox_search T self args charset c)))
     = select_count (parent_log c) + (if mailbox c \<noteq> u_mailbox self then 1 else 0)"
proof -
  obtain r c1 where s: "MailBox_u_select T self c = (r, c1)"
    by (cases "MailBox_u_select T self c")
  from MailBox_u_select_count[of T self c] s
  have n: "select_count (parent_log c1)
      = select_count (parent_log c) + (if mailbox c \<noteq> u_mailbox self then 1 else 0)"
    by simp
  show ?thesis
  proof (cases r)
    case (Inl e)
    with s n show ?thesis by (simp add: MailBox_search_def)
  next
    case (Inr u)
    obtain q c2 where t: "Connection_search T args charset c1 = (q, c2)"
      by (cases "Connection_search T args charset c1")
    from Connection_search_frame[of T args charset c1] t
    have "select_count (parent_log c2) = select_count (parent_log c1)" by simp
    with Inr s t n show ?thesis
      by (cases q) (simp_all add: MailBox_search_def)
  qed
qed

lemma MailBox_search_ok:
  assumes "MailBox_search T self args charset c = (Inr ms, c')"
  shows "mailbox c' = u_mailbox self"
proof -
  obtain r c1 where s: "MailBox_u_select T self c = (r, c1)"
    by (cases "MailBox_u_select T self c")
  obtain q c2 where t: "Connection_search T args charset c1 = (q, c2)"
    by (cases "Connection_search T args charset c1")
  from assms s t obtain u where r: "r = Inr u" and c2: "c' = c2"
    by (cases r; cases q) (simp_all add: MailBox_search_def)
  from s r have "mailbox c1 = u_mailbox self" by (simp add: MailBox_u_select_ok)
  moreover from Connection_search_frame[of T args charset c1] t
  have "mailbox c2 = mailbox c1" by simp
  ultimately show ?thesis using c2 by simp
qed

lemma MailBox_search_same:
  "mailbox c = u_mailbox self \<Longrightarrow>
     snd (MailBox_search T self args charset c) = snd (Connection_search T args charset c)"
  by (simp add: MailBox_search_def MailBox_u_select_same split: prod.splits sum.splits)

lemma MailBox_fetch_same:
  "mailbox c = u_mailbox self \<Longrightarrow>
     MailBox_fetch T self nums parts c = Connection_fetch T nums parts c"
  by (simp add: MailBox_fetch_def MailBox_u_select_same)

lemma MailBox_store_same:
  "mailbox c = u_mailbox self \<Longrightarrow>
     MailBox_store T self messages fl command silent c
       = (if u_readonly self then (Inl ReadOnlyException, c)
          else Connection_store T messages fl command silent c)"
  by (simp add: MailBox_store_def MailBox_u_select_same)

subsection \<open>Lines the pattern does not match\<close>

lemma u_parse_list_response_error:
  "u_parse_list_response line = Inl e \<Longrightarrow> e = AttributeError"
  by (auto simp: u_parse_list_response_def split: option.splits)

lemma u_parse_list_response_unmatched:
  "(u_parse_list_response line = Inl AttributeError) = (\<not> list_line_shape line)"
  unfolding list_response_pattern_match_None_iff[symmetric]
  by (auto simp: u_parse_list_response_def split: option.splits)

lemma list_loop_unmatched:
  "\<exists>l\<in>set boxlist. \<not> list_line_shape l \<Longrightarrow> list_loop boxlist boxes = Inl AttributeError"
proof (induction boxlist arbitrary: boxes)
  case Nil
  then show ?case by simp
next
  case (Cons box_line boxlist)
  show ?case
  proof (cases "u_parse_list_response box_line")
    case (Inl e)
    then have "e = AttributeError" by (rule u_parse_list_response_error)
    with Inl show ?thesis by simp
  next
    case (Inr r)
    then have "list_line_shape box_line"
      using u_parse_list_response_unmatched[of box_line] by auto
    with Cons.prems have "\<exists>l\<in>set boxlist. \<not> list_line_shape l" by auto
    from Cons.IH[OF this] Inr show ?thesis by (cases r) auto
  qed
qed

lemma not_shape_example1: "\<not> list_line_shape ''() / INBOX''"
  unfolding list_response_pattern_match_None_iff[symmetric]
  by (simp add: list_response_pattern_match_def match_after_flags_def dquote_def newline_def)

section \<open>The claims\<close>

text \<open>
  C7. \<open>_ok\<close> returns without an error for the status \<open>OK\<close> and for no other; for every
  other status, the empty string included, it raises \<open>BadReturnStatus\<close>, whose message
  is \<open>status was\<close> followed by the status it was given.
\<close>

theorem u_ok_only_OK:
  "(u_ok s = Inr ()) = (s = ''OK'')
   \<and> (s \<noteq> ''OK'' \<longrightarrow> u_ok s = Inl (BadReturnStatus (''status was '' @ s)))"
  by (simp add: u_ok_def)

theorem u_ok_only_OK_witness:
  "u_ok ''OK'' = Inr ()
   \<and> u_ok ''NO'' = Inl (BadReturnStatus ''status was NO'')
   \<and> u_ok [] = Inl (BadReturnStatus ''status was '')"
  using u_ok_only_OK[of "''OK''"] u_ok_only_OK[of "''NO''"] u_ok_only_OK[of "[]"]
  by simp

text \<open>
  C1. A fresh connection has \<open>readonly = False\<close>. \<open>switch('Sent', True)\<close>, answered
  \<open>OK\<close> by the session, records the mailbox name and leaves \<open>readonly\<close> at \<open>False\<close>:
  the requested value \<open>True\<close> is not recorded.
\<close>

theorem switch_readonly_not_recorded:
  "Connection_switch (\<lambda>h x. (''OK'', [])) ''Sent'' True Connection_init
     = (Inr (), \<lparr>mailbox = ''Sent'', readonly = False, parent_log = [IMAP_select ''Sent'' True]\<rparr>)"
  by (simp add: Connection_switch_def parent_call_def u_ok_def Connection_init_def)

text \<open>
  C9. When the session answers the \<open>select\<close> of \<open>switch\<close> with a status other than
  \<open>OK\<close>, \<open>switch\<close> raises \<open>BadReturnStatus\<close> with that status, and the connection is
  as before but for the call recorded: \<open>mailbox\<close> and \<open>readonly\<close> are unchanged.
\<close>

theorem switch_failure_keeps_cache:
  assumes "T (parent_log c) (IMAP_select m r) = (status, messages)" and "status \<noteq> ''OK''"
  shows "Connection_switch T m r c
           = (Inl (BadReturnStatus (''status was '' @ status)),
              c\<lparr>parent_log := parent_log c @ [IMAP_select m r]\<rparr>)
         \<and> mailbox (snd (Connection_switch T m r c)) = mailbox c
         \<and> readonly (snd (Connection_switch T m r c)) = readonly c"
  using assms by (simp add: Connection_switch_def parent_call_def u_ok_def)

theorem switch_failure_keeps_cache_witness:
  "Connection_switch (\<lambda>h x. (''NO'', [])) ''Sent'' True Connection_init
     = (Inl (BadReturnStatus ''status was NO''),
        \<lparr>mailbox = ''INBOX'', readonly = False, parent_log = [IMAP_select ''Sent'' True]\<rparr>)"
  using switch_failure_keeps_cache[of "\<lambda>h x. (''NO'', [])" Connection_init "''Sent''" True "''NO''" "[]"]
  by (simp add: Connection_init_def)

text \<open>
  C4. \<open>store\<close> on a \<open>MailBox\<close> or a \<open>Message\<close> whose \<open>_readonly\<close> is true raises
  \<open>ReadOnlyException\<close> and returns the connection as it was: no call reaches the
  session, neither a \<open>store\<close> nor a \<open>select\<close>.
\<close>

theorem readonly_store_refused:
  "(u_readonly self \<longrightarrow>
      MailBox_store T self messages fl command silent c = (Inl ReadOnlyException, c))
   \<and> (u_readonly msg \<longrightarrow>
      Message_store T msg fl command silent c = (Inl ReadOnlyException, c))"
  by (simp add: MailBox_store_def Message_store_def)

theorem readonly_store_refused_witness:
  "MailBox_store (\<lambda>h x. (''OK'', [])) \<lparr>u_mailbox = ''Sent'', u_readonly = True\<rparr>
       [''1'', ''2''] ''(x)'' ''+'' False Connection_init
     = (Inl ReadOnlyException, Connection_init)
   \<and> Message_store (\<lambda>h x. (''OK'', [])) \<lparr>u_mailbox = ''Sent'', u_readonly = True, num = ''1''\<rparr>
       ''(x)'' ''+'' False Connection_init
     = (Inl ReadOnlyException, Connection_init)
   \<and> parent_log Connection_init = []"
  using readonly_store_refused[of "\<lparr>u_mailbox = ''Sent'', u_readonly = True\<rparr>"
      "\<lambda>h x. (''OK'', [])" "[''1'', ''2'']" "''(x)''" "''+''" False Connection_init
      "\<lparr>u_mailbox = ''Sent'', u_readonly = True, num = ''1''\<rparr>"]
  by (simp add: Connection_init_def)

text \<open>
  C6, as the code has it. When the session answers \<open>search\<close> with \<open>OK\<close> and a payload
  whose first element is \<open>r\<close>: for the empty \<open>r\<close> the result is the empty list;
  otherwise it is \<open>r.split(' ')\<close>, the pieces of \<open>r\<close> between single space characters,
  in order. When \<open>r\<close> is a list of non-empty tokens without whitespace, joined by single
  spaces, these pieces are the tokens, and they are the whitespace-separated tokens of
  \<open>r\<close>.
\<close>

theorem search_splits_at_spaces:
  assumes "T (parent_log c) (IMAP_search charset args) = (''OK'', r # rs)"
  shows "(r = [] \<longrightarrow> fst (Connection_search T args charset c) = Inr [])
       \<and> (r \<noteq> [] \<longrightarrow> fst (Connection_search T args charset c) = Inr (split_space r))
       \<and> (ts \<noteq> [] \<and> (\<forall>t\<in>set ts. t \<noteq> [] \<and> (\<forall>ch\<in>set t. \<not> is_whitespace ch))
            \<and> r = join_space ts \<longrightarrow>
          fst (Connection_search T args charset c) = Inr ts \<and> spec_whitespace_tokens r = ts)"
proof -
  have e: "fst (Connection_search T args charset c) = Inr []" if "r = []"
    using assms that by (simp add: Connection_search_def parent_call_def u_ok_def)
  have g: "fst (Connection_search T args charset c) = Inr (split_space r)" if "r \<noteq> []"
    using assms that by (simp add: Connection_search_def parent_call_def u_ok_def)
  have j: "fst (Connection_search T args charset c) = Inr ts \<and> spec_whitespace_tokens r = ts"
    if n: "ts \<noteq> []" and w: "\<forall>t\<in>set ts. t \<noteq> [] \<and> (\<forall>ch\<in>set t. \<not> is_whitespace ch)"
      and r: "r = join_space ts"
  proof -
    from w have ns: "\<forall>t\<in>set ts. CHR '' '' \<notin> set t"
      using not_whitespace_not_space by blast
    from w have nn: "\<forall>t\<in>set ts. t \<noteq> []" by blast
    have ne: "r \<noteq> []" unfolding r by (rule join_space_not_Nil[OF n nn])
    have "split_space r = ts" unfolding r by (rule split_space_join_space[OF n ns])
    with g[OF ne] have 1: "fst (Connection_search T args charset c) = Inr ts" by simp
    have 2: "spec_whitespace_tokens r = ts"
      unfolding r spec_whitespace_tokens_def by (rule whitespace_tokens_join_space[OF w])
    from 1 2 show ?thesis by (rule conjI)
  qed
  from e g j show ?thesis by blast
qed

text \<open>
  The payloads \<open>['1 2 3']\<close> and \<open>['']\<close> of the specification: the results are
  \<open>['1', '2', '3']\<close> and \<open>[]\<close>.
\<close>

theorem search_splits_at_spaces_witness:
  "fst (Connection_search (\<lambda>h x. (''OK'', [''1 2 3''])) [''ALL''] None Connection_init)
     = Inr [''1'', ''2'', ''3'']
   \<and> fst (Connection_search (\<lambda>h x. (''OK'', [[]])) [''ALL''] None Connection_init) = Inr []"
proof -
  have t1: "[''1'', ''2'', ''3''] \<noteq> []" by simp
  have t2: "\<forall>t\<in>set [''1'', ''2'', ''3'']. t \<noteq> [] \<and> (\<forall>ch\<in>set t. \<not> is_whitespace ch)"
    by (simp add: is_whitespace_def)
  have t3: "''1 2 3'' = join_space [''1'', ''2'', ''3'']" by simp
  have t: "[''1'', ''2'', ''3''] \<noteq> [] \<and>
      (\<forall>t\<in>set [''1'', ''2'', ''3'']. t \<noteq> [] \<and> (\<forall>ch\<in>set t. \<not> is_whitespace ch))
      \<and> ''1 2 3'' = join_space [''1'', ''2'', ''3'']"
    using t1 t2 t3 by (intro conjI)
  have a: "fst (Connection_search (\<lambda>h x. (''OK'', [''1 2 3''])) [''ALL''] None Connection_init)
     = Inr [''1'', ''2'', ''3'']"
    by (rule search_splits_at_spaces[where T = "\<lambda>h x. (''OK'', [''1 2 3''])"
          and c = Connection_init and charset = None and args = "[''ALL'']"
          and r = "''1 2 3''" and rs = "[]" and ts = "[''1'', ''2'', ''3'']",
          OF refl, THEN conjunct2, THEN conjunct2, THEN mp, OF t, THEN conjunct1])
  have b: "fst (Connection_search (\<lambda>h x. (''OK'', [[]])) [''ALL''] None Connection_init) = Inr []"
    by (rule search_splits_at_spaces[where T = "\<lambda>h x. (''OK'', [[]])"
          and c = Connection_init and charset = None and args = "[''ALL'']"
          and r = "[]" and rs = "[]",
          OF refl, THEN conjunct1, THEN mp, OF refl])
  from a b show ?thesis by (rule conjI)
qed

text \<open>
  C6 as stated fails where the separator is not one space. For the payload \<open>['1  2']\<close>,
  two spaces between the numbers, the code returns \<open>['1', '', '2']\<close>: the empty string
  in the middle is no item number, and the whitespace-separated tokens of the payload are
  \<open>['1', '2']\<close>.
\<close>

theorem search_double_space_counterexample:
  "fst (Connection_search (\<lambda>h x. (''OK'', [''1  2''])) [''ALL''] None Connection_init)
     = Inr [''1'', [], ''2'']
   \<and> spec_whitespace_tokens ''1  2'' = [''1'', ''2'']"
  by (simp add: Connection_search_def parent_call_def u_ok_def Connection_init_def
      spec_whitespace_tokens_def is_whitespace_def)

text \<open>
  C3. A successful \<open>search\<close> on a \<open>MailBox\<close> leaves the connection's \<open>mailbox\<close> equal to
  that \<open>MailBox\<close>'s name. When the connection's \<open>mailbox\<close> is the name of a first
  \<open>MailBox\<close> and a second one has another name, \<open>search\<close> on the second makes exactly
  one more \<open>select\<close> call on the session, whatever the session answers. \<open>search\<close> on
  a \<open>MailBox\<close> whose name is the connection's \<open>mailbox\<close> makes none.
\<close>

theorem search_select_calls:
  "(MailBox_search T first args_first charset_first c_before = (Inr ms, c) \<longrightarrow> mailbox c = u_mailbox first)
   \<and> (mailbox c = u_mailbox first \<and> u_mailbox first \<noteq> u_mailbox second \<longrightarrow>
        select_count (parent_log (snd (MailBox_search T second args charset c)))
          = select_count (parent_log c) + 1)
   \<and> (mailbox c = u_mailbox self \<longrightarrow>
        select_count (parent_log (snd (MailBox_search T self args charset c)))
          = select_count (parent_log c))"
  by (simp add: MailBox_search_count MailBox_search_ok)

text \<open>
  After a \<open>search\<close> on \<open>Sent\<close> from a fresh connection (one \<open>select\<close> so far), a
  \<open>search\<close> on \<open>Drafts\<close> brings the count to two, and one on \<open>Sent\<close> leaves it at one.
\<close>

theorem search_select_calls_witness:
  "select_count (parent_log (snd (MailBox_search (\<lambda>h x. (''OK'', [''7'']))
       \<lparr>u_mailbox = ''Drafts'', u_readonly = False\<rparr> [''ALL''] None
       \<lparr>mailbox = ''Sent'', readonly = False,
          parent_log = [IMAP_select ''Sent'' False, IMAP_search None [''ALL'']]\<rparr>))) = 2
   \<and> select_count (parent_log (snd (MailBox_search (\<lambda>h x. (''OK'', [''7'']))
       \<lparr>u_mailbox = ''Sent'', u_readonly = False\<rparr> [''ALL''] None
       \<lparr>mailbox = ''Sent'', readonly = False,
          parent_log = [IMAP_select ''Sent'' False, IMAP_search None [''ALL'']]\<rparr>))) = 1"
proof -
  let ?T = "\<lambda>(h::call list) (x::call). (''OK'', [''7''])"
  let ?first = "\<lparr>u_mailbox = ''Sent'', u_readonly = False\<rparr>"
  let ?second = "\<lparr>u_mailbox = ''Drafts'', u_readonly = False\<rparr>"
  let ?c = "\<lparr>mailbox = ''Sent'', readonly = False,
          parent_log = [IMAP_select ''Sent'' False, IMAP_search None [''ALL'']]\<rparr>"
  have s1: "MailBox_search ?T ?first [''ALL''] None Connection_init
      = (Inr [\<lparr>u_mailbox = ''Sent'', u_readonly = False, num = ''7''\<rparr>], ?c)"
    by (simp add: MailBox_search_def MailBox_u_select_def Connection_switch_def
        Connection_search_def parent_call_def u_ok_def Connection_init_def Message_init_def)
  have n: "select_count (parent_log ?c) = 1"
    by (simp add: select_count_def)
  have m: "mailbox ?c = u_mailbox ?first \<and> u_mailbox ?first \<noteq> u_mailbox ?second"
    by simp
  have m': "mailbox ?c = u_mailbox ?first" by simp
  note i = search_select_calls[where T = ?T and first = ?first and second = ?second
      and self = ?first and c_before = Connection_init and c = ?c and args_first = "[''ALL'']"
      and charset_first = None and args = "[''ALL'']" and charset = None
      and ms = "[\<lparr>u_mailbox = ''Sent'', u_readonly = False, num = ''7''\<rparr>]"]
  from i[THEN conjunct2, THEN conjunct1, THEN mp, OF m] n
  have a: "select_count (parent_log (snd (MailBox_search ?T ?second [''ALL''] None ?c))) = 2"
    by simp
  from i[THEN conjunct2, THEN conjunct2, THEN mp, OF m'] n
  have b: "select_count (parent_log (snd (MailBox_search ?T ?first [''ALL''] None ?c))) = 1"
    by simp
  from i[THEN conjunct1, THEN mp, OF s1] have "mailbox ?c = ''Sent''" by simp
  from a b show ?thesis by (rule conjI)
qed

text \<open>
  C10. \<open>MailBox._select\<close> looks at the name only. For a \<open>MailBox\<close> whose name is the
  connection's \<open>mailbox\<close>, whatever its \<open>_readonly\<close> and the connection's \<open>readonly\<close>
  are, \<open>_select\<close> does nothing, and \<open>search\<close>, \<open>fetch\<close> and \<open>store\<close> make no
  \<open>select\<close> call and leave \<open>mailbox\<close> and \<open>readonly\<close> of the connection as they were.
\<close>

theorem same_name_no_select:
  assumes "mailbox c = u_mailbox self"
  shows "MailBox_u_select T self c = (Inr (), c)
    \<and> (\<forall>c' \<in> {snd (MailBox_search T self args charset c),
                snd (MailBox_fetch T self nums parts c),
                snd (MailBox_store T self messages fl command silent c)}.
         select_count (parent_log c') = select_count (parent_log c)
         \<and> mailbox c' = mailbox c \<and> readonly c' = readonly c)"
  using assms
  by (simp add: MailBox_u_select_same MailBox_search_same MailBox_fetch_same MailBox_store_same
      Connection_search_frame Connection_fetch_frame Connection_store_frame)

text \<open>
  A read-only \<open>MailBox\<close> for \<open>INBOX\<close> on a fresh connection, whose \<open>readonly\<close> is
  \<open>False\<close>.
\<close>

theorem same_name_no_select_witness:
  "u_readonly \<lparr>u_mailbox = ''INBOX'', u_readonly = True\<rparr> \<noteq> readonly Connection_init
   \<and> MailBox_u_select (\<lambda>h x. (''OK'', [''7''])) \<lparr>u_mailbox = ''INBOX'', u_readonly = True\<rparr>
        Connection_init = (Inr (), Connection_init)
   \<and> select_count (parent_log (snd (MailBox_search (\<lambda>h x. (''OK'', [''7'']))
        \<lparr>u_mailbox = ''INBOX'', u_readonly = True\<rparr> [''ALL''] None Connection_init))) = 0
   \<and> readonly (snd (MailBox_search (\<lambda>h x. (''OK'', [''7'']))
        \<lparr>u_mailbox = ''INBOX'', u_readonly = True\<rparr> [''ALL''] None Connection_init)) = False
   \<and> select_count (parent_log (snd (MailBox_fetch (\<lambda>h x. (''OK'', [''7'']))
        \<lparr>u_mailbox = ''INBOX'', u_readonly = True\<rparr> [''7''] [''FLAGS''] Connection_init))) = 0
   \<and> readonly (snd (MailBox_fetch (\<lambda>h x. (''OK'', [''7'']))
        \<lparr>u_mailbox = ''INBOX'', u_readonly = True\<rparr> [''7''] [''FLAGS''] Connection_init)) = False"
proof -
  have m: "mailbox Connection_init = u_mailbox \<lparr>u_mailbox = ''INBOX'', u_readonly = True\<rparr>"
    by (simp add: Connection_init_def)
  have z: "select_count (parent_log Connection_init) = 0" "readonly Connection_init = False"
    by (simp_all add: Connection_init_def select_count_def)
  note i = same_name_no_select[where T = "\<lambda>h x. (''OK'', [''7''])"
      and self = "\<lparr>u_mailbox = ''INBOX'', u_readonly = True\<rparr>" and c = Connection_init
      and args = "[''ALL'']" and charset = None and nums = "[''7'']" and parts = "[''FLAGS'']"
      and messages = "[''7'']" and fl = "''x''" and command = "''+''" and silent = False, OF m]
  from i z show ?thesis by simp
qed

text \<open>
  C8. When \<open>MailBox.store\<close> with the one-element list \<open>[self.num]\<close> succeeds, the list
  it returns has exactly one element, and \<open>Message.store\<close> returns that element, with the
  same connection state.
\<close>

theorem message_store_unwraps:
  assumes "MailBox_store T self [num self] fl command silent c = (Inr new_flags, c')"
  shows "\<exists>x. new_flags = [x] \<and> Message_store T self fl command silent c = (Inr x, c')"
proof -
  from assms have ro: "\<not> u_readonly self"
    by (auto simp: MailBox_store_def split: if_splits)
  obtain r c1 where s: "MailBox_u_select T self c = (r, c1)"
    by (cases "MailBox_u_select T self c")
  from assms ro s have st: "Connection_store T [num self] fl command silent c1 = (Inr new_flags, c')"
    by (cases r) (simp_all add: MailBox_store_def)
  then obtain x where x: "new_flags = [x]"
    unfolding Connection_store_def Let_def by (blast dest: store_loop_single)
  with assms have "Message_store T self fl command silent c = (Inr x, c')"
    by (simp add: Message_store_def)
  with x show ?thesis by blast
qed

text \<open>
  Message 7 of \<open>INBOX\<close>, a session that answers \<open>store\<close> with the new flags.
\<close>

theorem message_store_unwraps_witness:
  "MailBox_store (\<lambda>h x. (''OK'', [''7 (FLAGS (x))'']))
       \<lparr>u_mailbox = ''INBOX'', u_readonly = False, num = ''7''\<rparr> [''7''] ''x'' ''+'' False
       Connection_init
     = (Inr [[''7 (FLAGS (x))'']],
        \<lparr>mailbox = ''INBOX'', readonly = False, parent_log = [IMAP_store ''7'' ''+FLAGS'' ''x'']\<rparr>)
   \<and> Message_store (\<lambda>h x. (''OK'', [''7 (FLAGS (x))'']))
       \<lparr>u_mailbox = ''INBOX'', u_readonly = False, num = ''7''\<rparr> ''x'' ''+'' False
       Connection_init
     = (Inr [''7 (FLAGS (x))''],
        \<lparr>mailbox = ''INBOX'', readonly = False, parent_log = [IMAP_store ''7'' ''+FLAGS'' ''x'']\<rparr>)"
proof -
  let ?T = "\<lambda>(h::call list) (x::call). (''OK'', [''7 (FLAGS (x))''])"
  let ?m = "\<lparr>u_mailbox = ''INBOX'', u_readonly = False, num = ''7''\<rparr>"
  let ?c = "\<lparr>mailbox = ''INBOX'', readonly = False,
      parent_log = [IMAP_store ''7'' ''+FLAGS'' ''x'']\<rparr>"
  have s: "MailBox_store ?T ?m [num ?m] ''x'' ''+'' False Connection_init
      = (Inr [[''7 (FLAGS (x))'']], ?c)"
    by (simp add: MailBox_store_def MailBox_u_select_def Connection_store_def
        parent_call_def u_ok_def Connection_init_def)
  from message_store_unwraps[where T = ?T and self = ?m and fl = "''x''" and command = "''+''"
      and silent = False and c = Connection_init and c' = ?c
      and new_flags = "[[''7 (FLAGS (x))'']]", OF s]
  have "Message_store ?T ?m ''x'' ''+'' False Connection_init = (Inr [''7 (FLAGS (x))''], ?c)"
    by simp
  with s show ?thesis by simp
qed

text \<open>
  C2, as the code has it. \<open>_parse_list_response\<close> raises \<open>AttributeError\<close> exactly for
  the lines that the pattern does not match, those that do not begin with an opening
  parenthesis, flags, \<open>) "\<close>, a delimiter, \<open>" \<close>; it never returns a result for such a
  line. The error is the one Python raises for \<open>None.groups()\<close> and holds no line. When
  the session answers \<open>list\<close> with \<open>OK\<close> and a payload with such a line in it,
  \<open>Connection.list\<close> raises the same \<open>AttributeError\<close>.
\<close>

theorem unmatched_line_AttributeError:
  "(u_parse_list_response line = Inl AttributeError) = (\<not> list_line_shape line)
   \<and> (T (parent_log c) (IMAP_list args) = (''OK'', boxlist)
        \<and> (\<exists>l\<in>set boxlist. \<not> list_line_shape l) \<longrightarrow>
      fst (Connection_list T args c) = Inl AttributeError)"
  by (simp add: u_parse_list_response_unmatched Connection_list_def parent_call_def u_ok_def
      list_loop_unmatched)

text \<open>
  The line \<open>() / INBOX\<close>, whose delimiter has no quotes, alone and as the payload of
  \<open>list\<close>.
\<close>

theorem unmatched_line_AttributeError_witness:
  "u_parse_list_response ''() / INBOX'' = Inl AttributeError
   \<and> fst (Connection_list (\<lambda>h x. (''OK'', [''() / INBOX''])) [] Connection_init)
       = Inl AttributeError"
proof -
  note i = unmatched_line_AttributeError[where line = "''() / INBOX''"
      and T = "\<lambda>h x. (''OK'', [''() / INBOX''])" and c = Connection_init and args = "[]"
      and boxlist = "[''() / INBOX'']"]
  have a: "u_parse_list_response ''() / INBOX'' = Inl AttributeError"
    using i[THEN conjunct1] not_shape_example1 by simp
  have h: "(\<lambda>h x. (''OK'', [''() / INBOX''])) (parent_log Connection_init) (IMAP_list [])
        = (''OK'', [''() / INBOX''])
      \<and> (\<exists>l\<in>set [''() / INBOX'']. \<not> list_line_shape l)"
    using not_shape_example1 by simp
  from i[THEN conjunct2, THEN mp, OF h] a show ?thesis by simp
qed

text \<open>
  C2 as stated fails: the code has no \<open>UnparsableListing\<close> error. The two unmatched
  lines \<open>() / INBOX\<close> and \<open>INBOX\<close> raise one and the same \<open>AttributeError\<close>, an error
  that is not particular to listings and that does not tell the two lines apart.
\<close>

theorem unmatched_line_error_counterexample:
  "u_parse_list_response ''() / INBOX'' = Inl AttributeError
   \<and> u_parse_list_response ''INBOX'' = Inl AttributeError"
  by (simp add: u_parse_list_response_def list_response_pattern_match_def match_after_flags_def
      dquote_def newline_def)

text \<open>
  C5, as the code has it. For every line that the pattern matches,
  \<open>_parse_list_response\<close> returns the three groups of the match, the line beginning with
  them in the shape \<open>(flags) "delimiter" name\<close>, and the name stripped by
  \<open>strip('"')\<close>. For flags without a closing parenthesis and a name without a double
  quote followed by a space (and no newline in the line) the groups are the flags, the
  delimiter and the name as written. \<open>strip('"')\<close> removes all leading and all trailing
  double quotes, not one pair: what is left of the name neither starts nor ends with
  one.
\<close>

theorem parse_list_line_groups:
  "(list_line_shape line \<longrightarrow>
      (\<exists>f d n r. list_response_pattern_match line = Some (f, d, n)
         \<and> u_parse_list_response line = Inr (f, d, strip_dquote n)
         \<and> line = ''('' @ f @ [CHR '')'', CHR '' '', dquote] @ d @ [dquote, CHR '' ''] @ n @ r))
   \<and> (CHR '')'' \<notin> set f \<and> newline \<notin> set f \<and> newline \<notin> set d \<and> newline \<notin> set n
        \<and> (\<forall>u v. n \<noteq> u @ [dquote, CHR '' ''] @ v) \<longrightarrow>
      u_parse_list_response
          (''('' @ f @ [CHR '')'', CHR '' '', dquote] @ d @ [dquote, CHR '' ''] @ n)
        = Inr (f, d, strip_dquote n))
   \<and> (\<exists>i j. n = replicate i dquote @ strip_dquote n @ replicate j dquote)
   \<and> (strip_dquote n \<noteq> [] \<longrightarrow>
        hd (strip_dquote n) \<noteq> dquote \<and> last (strip_dquote n) \<noteq> dquote)"
proof (intro conjI impI)
  assume "list_line_shape line"
  then have "list_response_pattern_match line \<noteq> None"
    using list_response_pattern_match_None_iff by blast
  then obtain f d n where m: "list_response_pattern_match line = Some (f, d, n)" by auto
  from list_response_pattern_match_Some[OF m] obtain r where
    "line = ''('' @ f @ [CHR '')'', CHR '' '', dquote] @ d @ [dquote, CHR '' ''] @ n @ r"
    by blast
  moreover from m have "u_parse_list_response line = Inr (f, d, strip_dquote n)"
    by (simp add: u_parse_list_response_def)
  ultimately show "\<exists>f d n r. list_response_pattern_match line = Some (f, d, n)
         \<and> u_parse_list_response line = Inr (f, d, strip_dquote n)
         \<and> line = ''('' @ f @ [CHR '')'', CHR '' '', dquote] @ d @ [dquote, CHR '' ''] @ n @ r"
    using m by blast
next
  assume "CHR '')'' \<notin> set f \<and> newline \<notin> set f \<and> newline \<notin> set d \<and> newline \<notin> set n
        \<and> (\<forall>u v. n \<noteq> u @ [dquote, CHR '' ''] @ v)"
  then show "u_parse_list_response
          (''('' @ f @ [CHR '')'', CHR '' '', dquote] @ d @ [dquote, CHR '' ''] @ n)
        = Inr (f, d, strip_dquote n)"
    using parse_shape[of f d n] by blast
next
  show "\<exists>i j. n = replicate i dquote @ strip_dquote n @ replicate j dquote"
    by (rule strip_dquote_decomp)
next
  assume "strip_dquote n \<noteq> []"
  then show "hd (strip_dquote n) \<noteq> dquote" using strip_dquote_ends by blast
next
  assume "strip_dquote n \<noteq> []"
  then show "last (strip_dquote n) \<noteq> dquote" using strip_dquote_ends by blast
qed

text \<open>
  The line \<open>(\Seen \Flagged) "/" INBOX.Sent\<close> of the specification, and the line
  \<open>() "." INBOX\<close> with empty flags, which gives the empty string for the flags.
\<close>

theorem parse_list_line_groups_witness:
  "u_parse_list_response
     (''('' @ (CHR 0x5C # ''Seen '' @ CHR 0x5C # ''Flagged'') @ [CHR '')'', CHR '' '', dquote]
        @ ''/'' @ [dquote, CHR '' ''] @ ''INBOX.Sent'')
     = Inr (CHR 0x5C # ''Seen '' @ CHR 0x5C # ''Flagged'', ''/'', ''INBOX.Sent'')
   \<and> u_parse_list_response
     (''('' @ [] @ [CHR '')'', CHR '' '', dquote] @ ''.'' @ [dquote, CHR '' ''] @ ''INBOX'')
     = Inr ([], ''.'', ''INBOX'')"
proof -
  have q1: "\<forall>u v. ''INBOX.Sent'' \<noteq> u @ [dquote, CHR '' ''] @ v"
    by (rule no_dquote_no_split) (simp add: dquote_def)
  have q2: "\<forall>u v. ''INBOX'' \<noteq> u @ [dquote, CHR '' ''] @ v"
    by (rule no_dquote_no_split) (simp add: dquote_def)
  have h1: "CHR '')'' \<notin> set (CHR 0x5C # ''Seen '' @ CHR 0x5C # ''Flagged'')
      \<and> newline \<notin> set (CHR 0x5C # ''Seen '' @ CHR 0x5C # ''Flagged'')
      \<and> newline \<notin> set ''/'' \<and> newline \<notin> set ''INBOX.Sent''
      \<and> (\<forall>u v. ''INBOX.Sent'' \<noteq> u @ [dquote, CHR '' ''] @ v)"
    using q1 by (simp add: newline_def)
  have h2: "CHR '')'' \<notin> set [] \<and> newline \<notin> set [] \<and> newline \<notin> set ''.''
      \<and> newline \<notin> set ''INBOX'' \<and> (\<forall>u v. ''INBOX'' \<noteq> u @ [dquote, CHR '' ''] @ v)"
    using q2 by (simp add: newline_def)
  have s1: "strip_dquote ''INBOX.Sent'' = ''INBOX.Sent''"
    by (simp add: strip_dquote_def dquote_def)
  have s2: "strip_dquote ''INBOX'' = ''INBOX''"
    by (simp add: strip_dquote_def dquote_def)
  note i1 = parse_list_line_groups[where f = "CHR 0x5C # ''Seen '' @ CHR 0x5C # ''Flagged''"
      and d = "''/''" and n = "''INBOX.Sent''",
      THEN conjunct2, THEN conjunct1, THEN mp, OF h1]
  note i2 = parse_list_line_groups[where f = "[]" and d = "''.''" and n = "''INBOX''",
      THEN conjunct2, THEN conjunct1, THEN mp, OF h2]
  from i1 s1 have a: "u_parse_list_response
     (''('' @ (CHR 0x5C # ''Seen '' @ CHR 0x5C # ''Flagged'') @ [CHR '')'', CHR '' '', dquote]
        @ ''/'' @ [dquote, CHR '' ''] @ ''INBOX.Sent'')
     = Inr (CHR 0x5C # ''Seen '' @ CHR 0x5C # ''Flagged'', ''/'', ''INBOX.Sent'')"
    by (simp only:)
  from i2 s2 have b: "u_parse_list_response
     (''('' @ [] @ [CHR '')'', CHR '' '', dquote] @ ''.'' @ [dquote, CHR '' ''] @ ''INBOX'')
     = Inr ([], ''.'', ''INBOX'')"
    by (simp only:)
  from a b show ?thesis by (rule conjI)
qed

text \<open>
  C5 as stated fails for a name with more than one quote at an end. In the line
  \<open>() "/" ""x""\<close> the third group is \<open>""x""\<close>; the code returns \<open>x\<close>, where one
  stripped pair would leave \<open>"x"\<close>.
\<close>

theorem strip_all_quotes_counterexample:
  "list_response_pattern_match
     (''('' @ [] @ [CHR '')'', CHR '' '', dquote] @ ''/'' @ [dquote, CHR '' '']
        @ [dquote, dquote] @ ''x'' @ [dquote, dquote])
     = Some ([], ''/'', [dquote, dquote] @ ''x'' @ [dquote, dquote])
   \<and> u_parse_list_response
     (''('' @ [] @ [CHR '')'', CHR '' '', dquote] @ ''/'' @ [dquote, CHR '' '']
        @ [dquote, dquote] @ ''x'' @ [dquote, dquote])
     = Inr ([], ''/'', ''x'')
   \<and> spec_strip_one_pair ([dquote, dquote] @ ''x'' @ [dquote, dquote]) = [dquote] @ ''x'' @ [dquote]"
  by (simp add: u_parse_list_response_def list_response_pattern_match_def match_after_flags_def
      match_after_delimiter_def match_name_def strip_dquote_def spec_strip_one_pair_def
      dquote_def newline_def)

end
